theory Spec2Isabelle
  imports Complex_Main "HOL-Library.AList"
begin

section \<open>Python values\<close>

text \<open>
  The values that travel through the store are the JSON-like Python values: \<open>None\<close>,
  booleans, integers, floats, strings, lists and dicts with string keys.  A float is held
  as a JSON literal that denotes it (\<open>1.0\<close>, \<open>1e-05\<close>, \<open>NaN\<close>, \<open>Infinity\<close>); for a
  float that Python computed this is the literal that \<open>json.dumps\<close> prints, and nothing
  here computes with floats.  Two floats with the same literal are the same float, and no
  theorem below rests on two floats being different.  A dict is an association list in
  insertion order.  A string is the list of its characters, and the characters are the
  code points below 256.
\<close>

datatype json =
    JNull
  | JBool bool
  | JInt int
  | JFloat string
  | JStr string
  | JArr "json list"
  | JObj "(string \<times> json) list"

text \<open>
  A float literal denotes a number other than zero when a digit other than \<open>0\<close> stands
  before its exponent, or when it is \<open>NaN\<close> or an infinity.
\<close>

definition nonzero_literal :: "string \<Rightarrow> bool" where
  "nonzero_literal r =
     list_ex (\<lambda>c. c \<in> set ''123456789NI'')
       (takeWhile (\<lambda>c. c \<noteq> CHR ''e'' \<and> c \<noteq> CHR ''E'') r)"

text \<open>Python truthiness, as used by \<open>if not session_id\<close> and \<open>if d.get(field)\<close>.\<close>

fun truthy :: "json \<Rightarrow> bool" where
  "truthy JNull = False"
| "truthy (JBool b) = b"
| "truthy (JInt i) = (i \<noteq> 0)"
| "truthy (JFloat r) = nonzero_literal r"
| "truthy (JStr s) = (s \<noteq> [])"
| "truthy (JArr xs) = (xs \<noteq> [])"
| "truthy (JObj kvs) = (kvs \<noteq> [])"

text \<open>
  \<open>{**existing, **value}\<close>: every key of \<open>value\<close> is assigned into a copy of
  \<open>existing\<close>; an existing key keeps its position and takes the new value, a new key is
  appended.  \<open>dict(pairs)\<close> is the same assignment loop from the empty dict.
\<close>

definition dict_merge :: "(string \<times> json) list \<Rightarrow> (string \<times> json) list \<Rightarrow> (string \<times> json) list" where
  "dict_merge existing incoming = foldl (\<lambda>d (k, v). AList.update k v d) existing incoming"

definition dict_of_pairs :: "(string \<times> json) list \<Rightarrow> (string \<times> json) list" where
  "dict_of_pairs pairs = dict_merge [] pairs"

text \<open>The decimal digits of a natural number, as \<open>str\<close> and the f-strings print it.\<close>

definition digit_char :: "nat \<Rightarrow> char" where
  "digit_char d = char_of (48 + d)"

function show_nat :: "nat \<Rightarrow> string" where
  "show_nat n = (if n < 10 then [digit_char n] else show_nat (n div 10) @ [digit_char (n mod 10)])"
  by pat_completeness auto
termination
  by (relation "measure id") auto

declare show_nat.simps [simp del]

text \<open>
  The module \<open>json\<close> of the Python library is not part of the program.  The store and
  the handler call its functions \<open>loads\<close> and \<open>dumps\<close>, which are a parameter of every
  definition that follows: \<open>loads\<close> gives the decoded value, or \<open>None\<close> for the
  \<open>JSONDecodeError\<close> that each caller catches, and \<open>dumps\<close> gives the text of a value.
\<close>

record json_module =
  loads :: "string \<Rightarrow> json option"
  dumps :: "json \<Rightarrow> string"

section \<open>The draft record store\<close>

text \<open>Python's \<open>str.endswith\<close> and \<open>str.replace(old, "")\<close> for a non-empty \<open>old\<close>.\<close>

definition endswith :: "string \<Rightarrow> string \<Rightarrow> bool" where
  "endswith s suffix \<longleftrightarrow>
     length suffix \<le> length s \<and> drop (length s - length suffix) s = suffix"

fun str_remove :: "string \<Rightarrow> string \<Rightarrow> string" where
  "str_remove old [] = []"
| "str_remove old (c # cs) =
     (if old \<noteq> [] \<and> take (length old) (c # cs) = old
      then str_remove old (drop (length old - 1) cs)
      else c # str_remove old cs)"

definition METADATA_FIELDS :: "string list" where
  "METADATA_FIELDS =
     [''subject_json'', ''procedures_json'', ''data_description_json'', ''instrument_json'',
      ''acquisition_json'', ''session_json'', ''processing_json'', ''quality_control_json'',
      ''rig_json'']"

text \<open>
  A row of the table \<open>draft_metadata\<close>.  The ten \<open>TEXT\<close> columns that hold JSON are
  addressed by their column names, as the code builds its statements from them;
  \<open>None\<close> is SQL \<open>NULL\<close>.  The timestamps are clock readings; the table is the list of
  its rows in insertion order.
\<close>

record draft_row =
  row_id :: string
  session_id :: string
  status :: string
  json_cols :: "string \<Rightarrow> string option"
  created_at :: nat
  updated_at :: nat

type_synonym store = "draft_row list"

text \<open>The dict that \<open>_row_to_dict\<close> returns: the JSON columns hold Python values.\<close>

record draft_dict =
  d_id :: string
  d_session_id :: string
  d_status :: string
  d_json :: "string \<Rightarrow> json"
  d_created_at :: nat
  d_updated_at :: nat

text \<open>
  \<open>ORDER BY created_at DESC\<close>: a stable sort, rows of equal \<open>created_at\<close> staying in
  insertion order (SQL leaves their order open).
\<close>

fun insert_desc :: "draft_row \<Rightarrow> draft_row list \<Rightarrow> draft_row list" where
  "insert_desc r [] = [r]"
| "insert_desc r (x # xs) =
     (if created_at x \<le> created_at r then r # x # xs else x # insert_desc r xs)"

definition order_by_created_at_desc :: "draft_row list \<Rightarrow> draft_row list" where
  "order_by_created_at_desc rows = foldr insert_desc rows []"

text \<open>\<open>SELECT ... WHERE session_id = ? ORDER BY created_at DESC LIMIT 1\<close>.\<close>

definition latest_row :: "store \<Rightarrow> string \<Rightarrow> draft_row option" where
  "latest_row db sid =
     (case order_by_created_at_desc (filter (\<lambda>r. session_id r = sid) db) of
        [] \<Rightarrow> None
      | row # _ \<Rightarrow> Some row)"

definition dict_of_row :: "draft_row \<Rightarrow> string \<Rightarrow> json" where
  "dict_of_row row c = (case json_cols row c of None \<Rightarrow> JNull | Some t \<Rightarrow> JStr t)"

text \<open>
  One round of the loop of \<open>_row_to_dict\<close>: a truthy column is decoded, and a decoding
  error (or a value that is no string) leaves it as it is.
\<close>

definition parse_col ::
  "json_module \<Rightarrow> (string \<Rightarrow> json) \<Rightarrow> string \<Rightarrow> (string \<Rightarrow> json)" where
  "parse_col J d field =
     (if truthy (d field) then
        (case d field of
           JStr t \<Rightarrow> (case loads J t of Some v \<Rightarrow> d(field := v) | None \<Rightarrow> d)
         | _ \<Rightarrow> d)
      else d)"

definition row_to_dict :: "json_module \<Rightarrow> draft_row \<Rightarrow> draft_dict" where
  "row_to_dict J row =
     \<lparr>d_id = row_id row, d_session_id = session_id row, d_status = status row,
      d_json = parse_col J (foldl (parse_col J) (dict_of_row row) METADATA_FIELDS)
                 ''validation_results_json'',
      d_created_at = created_at row, d_updated_at = updated_at row\<rparr>"

definition get_draft_metadata :: "json_module \<Rightarrow> store \<Rightarrow> string \<Rightarrow> draft_dict option" where
  "get_draft_metadata J db sid =
     (case latest_row db sid of None \<Rightarrow> None | Some row \<Rightarrow> Some (row_to_dict J row))"

text \<open>
  \<open>save_draft_metadata\<close>: \<open>draft_id\<close> is the fresh \<open>uuid4\<close> and \<open>now\<close> the clock reading.
  The loop over \<open>METADATA_FIELDS\<close> looks each bare key up in \<open>metadata_json\<close> and
  serialises what it finds behind the double-serialisation guard.
\<close>

definition save_column ::
  "json_module \<Rightarrow> (string \<times> json) list \<Rightarrow> draft_row \<Rightarrow> string \<Rightarrow> draft_row" where
  "save_column J metadata_json row field =
     (let key = str_remove ''_json'' field in
      case map_of metadata_json key of
        None \<Rightarrow> row
      | Some raw \<Rightarrow>
          (let serialized =
                 (case raw of
                    JStr s \<Rightarrow> (case loads J s of Some _ \<Rightarrow> s | None \<Rightarrow> dumps J raw)
                  | _ \<Rightarrow> dumps J raw)
           in row\<lparr>json_cols := (json_cols row)(field \<mapsto> serialized)\<rparr>))"

definition new_row ::
  "json_module \<Rightarrow> string \<Rightarrow> nat \<Rightarrow> string \<Rightarrow> (string \<times> json) list \<Rightarrow> draft_row" where
  "new_row J draft_id now sid metadata_json =
     foldl (save_column J metadata_json)
       \<lparr>row_id = draft_id, session_id = sid, status = ''draft'', json_cols = (\<lambda>c. None),
        created_at = now, updated_at = now\<rparr>
       METADATA_FIELDS"

definition save_draft_metadata ::
  "json_module \<Rightarrow> string \<Rightarrow> nat \<Rightarrow> store \<Rightarrow> string \<Rightarrow> (string \<times> json) list
     \<Rightarrow> store \<times> draft_dict option" where
  "save_draft_metadata J draft_id now db sid metadata_json =
     (let db' = db @ [new_row J draft_id now sid metadata_json]
      in (db', get_draft_metadata J db' sid))"

text \<open>
  \<open>update_draft_metadata\<close> returns the dict \<open>{"error": ...}\<close> (\<open>Inl\<close>), \<open>None\<close> when the
  session has no draft, or the row read back.
\<close>

definition update_draft_metadata ::
  "json_module \<Rightarrow> nat \<Rightarrow> store \<Rightarrow> string \<Rightarrow> string \<Rightarrow> json
     \<Rightarrow> store \<times> (string + draft_dict option)" where
  "update_draft_metadata J now db sid field v =
     (let col = (if endswith field ''_json'' then field else field @ ''_json'') in
      if col \<notin> set METADATA_FIELDS \<and> col \<noteq> ''validation_results_json''
      then (db, Inl (''Unknown metadata field: '' @ field))
      else
        (case latest_row db sid of
           None \<Rightarrow> (db, Inr None)
         | Some row \<Rightarrow>
             (let serialized =
                    (case v of
                       JStr s \<Rightarrow> (case loads J s of Some _ \<Rightarrow> s | None \<Rightarrow> dumps J v)
                     | _ \<Rightarrow> dumps J v);
                  db' = map (\<lambda>r. if row_id r = row_id row
                                  then r\<lparr>json_cols := (json_cols r)(col \<mapsto> serialized),
                                         updated_at := now\<rparr>
                                  else r) db
              in (db', Inr (get_draft_metadata J db' sid)))))"

definition list_all_drafts :: "json_module \<Rightarrow> store \<Rightarrow> string option \<Rightarrow> draft_dict list" where
  "list_all_drafts J db status_filter =
     (case status_filter of
        Some f \<Rightarrow>
          if f \<noteq> []
          then map (row_to_dict J) (order_by_created_at_desc (filter (\<lambda>r. status r = f) db))
          else map (row_to_dict J) (order_by_created_at_desc db)
      | None \<Rightarrow> map (row_to_dict J) (order_by_created_at_desc db))"

definition confirm_metadata ::
  "json_module \<Rightarrow> nat \<Rightarrow> store \<Rightarrow> string \<Rightarrow> store \<times> draft_dict option" where
  "confirm_metadata J now db sid =
     (case latest_row db sid of
        None \<Rightarrow> (db, None)
      | Some row \<Rightarrow>
          (let db' = map (\<lambda>r. if row_id r = row_id row
                               then r\<lparr>status := ''confirmed'', updated_at := now\<rparr>
                               else r) db
           in (db', get_draft_metadata J db' sid)))"

section \<open>The capture orchestrator\<close>

text \<open>
  The arguments of a capture call: \<open>session_id\<close> (a string by the tool's schema, or
  absent), and \<open>args.get(field)\<close> for the section names, \<open>JNull\<close> standing for a missing
  key as well as for \<open>None\<close>.
\<close>

record capture_args =
  arg_session_id :: "string option"
  arg_get :: "string \<Rightarrow> json"

definition metadata_fields :: "string list" where
  "metadata_fields =
     [''subject'', ''data_description'', ''session'', ''procedures'', ''instrument'',
      ''acquisition'', ''processing'', ''quality_control'', ''rig'']"

text \<open>
  One round of the collecting loop; the field names are distinct, so the assignment
  \<open>metadata[field] = value\<close> appends.
\<close>

definition collect_field ::
  "json_module \<Rightarrow> (string \<Rightarrow> json) \<Rightarrow> (string \<times> json) list \<Rightarrow> string
     \<Rightarrow> (string \<times> json) list" where
  "collect_field J get metadata field =
     (let v = get field in
      if v \<noteq> JNull then
        metadata @
          [(field, (case v of
                      JStr s \<Rightarrow> (case loads J s of Some parsed \<Rightarrow> parsed | None \<Rightarrow> v)
                    | _ \<Rightarrow> v))]
      else metadata)"

fun is_dict :: "json \<Rightarrow> bool" where
  "is_dict (JObj kvs) = True"
| "is_dict _ = False"

fun the_dict :: "json \<Rightarrow> (string \<times> json) list" where
  "the_dict (JObj kvs) = kvs"
| "the_dict _ = []"

text \<open>
  The merging loop over \<open>metadata.items()\<close>.  \<open>draft\<close> is the dict read before the loop;
  the \<open>k\<close>-th write of the call reads the clock as \<open>clock k\<close>.  The value that
  \<open>update_draft_metadata\<close> returns is dropped, as in the source.
\<close>

fun merge_fields ::
  "json_module \<Rightarrow> (nat \<Rightarrow> nat) \<Rightarrow> nat \<Rightarrow> store \<Rightarrow> string \<Rightarrow> draft_dict
     \<Rightarrow> (string \<times> json) list \<Rightarrow> store" where
  "merge_fields J clock k db sid draft [] = db"
| "merge_fields J clock k db sid draft ((field, v) # rest) =
     (let existing = d_json draft (field @ ''_json'');
          db' = (if is_dict existing \<and> is_dict v
                 then fst (update_draft_metadata J (clock k) db sid field
                             (JObj (dict_merge (the_dict existing) (the_dict v))))
                 else fst (update_draft_metadata J (clock k) db sid field v))
      in merge_fields J clock (Suc k) db' sid draft rest)"

text \<open>
  The snapshot handed to the validator: the columns of the row in table order whose
  names end in \<open>_json\<close>, the validation column left out, \<open>None\<close> values dropped, the
  suffix removed from the key.
\<close>

definition bare_metadata :: "draft_dict \<Rightarrow> (string \<times> json) list" where
  "bare_metadata d =
     map (\<lambda>k. (str_remove ''_json'' k, d_json d k))
       (filter (\<lambda>k. endswith k ''_json'' \<and> k \<noteq> ''validation_results_json'' \<and> d_json d k \<noteq> JNull)
          (METADATA_FIELDS @ [''validation_results_json'']))"

definition saved_text :: "json_module \<Rightarrow> string \<Rightarrow> (string \<times> json) list \<Rightarrow> string" where
  "saved_text J sid metadata =
     dumps J (JObj
       [(''status'', JStr ''saved''),
        (''session_id'', JStr sid),
        (''fields_saved'', JArr (map (\<lambda>(k, v). JStr k) metadata)),
        (''message'', JStr (''Successfully saved '' @ show_nat (length metadata)
                            @ '' metadata field(s)''))])"

definition error_text :: "json_module \<Rightarrow> string \<Rightarrow> string" where
  "error_text J e = dumps J (JObj [(''status'', JStr ''error''), (''error'', JStr e)])"

definition no_fields_text :: string where
  "no_fields_text =
     ''No metadata fields provided. Include at least one of: subject, data_description, ''
     @ ''session, procedures, instrument, acquisition, processing, quality_control, rig''"

text \<open>
  \<open>capture_metadata_handler\<close> returns the store and the text of the response.  The
  validator lives in a module of its own and is a parameter here: it returns the result's
  \<open>to_dict()\<close>, or \<open>Inl\<close> the message of the exception it raised, which the handler's
  \<open>except\<close> turns into an error response after the section writes are committed.
  \<open>draft_id\<close> is the \<open>uuid4\<close> for a new draft and \<open>clock k\<close> the clock reading of the
  \<open>k\<close>-th write of the call.  The database itself does not fail in this model.
\<close>

definition capture_metadata_handler ::
  "json_module \<Rightarrow> ((string \<times> json) list \<Rightarrow> string + json) \<Rightarrow> string \<Rightarrow> (nat \<Rightarrow> nat)
     \<Rightarrow> store \<Rightarrow> capture_args \<Rightarrow> store \<times> string" where
  "capture_metadata_handler J validate_metadata draft_id clock db args =
     (case arg_session_id args of
        None \<Rightarrow> (db, ''Error: session_id is required'')
      | Some sid \<Rightarrow>
          if sid = [] then (db, ''Error: session_id is required'')
          else
            (let metadata = foldl (collect_field J (arg_get args)) [] metadata_fields in
             if metadata = [] then (db, no_fields_text)
             else
               (let (db1, k) =
                      (case get_draft_metadata J db sid of
                         None \<Rightarrow> (fst (save_draft_metadata J draft_id (clock 0) db sid metadata), 1)
                       | Some draft \<Rightarrow>
                           (merge_fields J clock 0 db sid draft metadata, length metadata))
                in case get_draft_metadata J db1 sid of
                     None \<Rightarrow> (db1, saved_text J sid metadata)
                   | Some updated_draft \<Rightarrow>
                       (case validate_metadata (bare_metadata updated_draft) of
                          Inl e \<Rightarrow> (db1, error_text J e)
                        | Inr validation_result \<Rightarrow>
                            (fst (update_draft_metadata J (clock k) db1 sid ''validation_results''
                                    validation_result),
                             saved_text J sid metadata)))))"

section \<open>The validation engine\<close>

text \<open>
  Modelled from the spec: the module \<open>agent/validation.py\<close> (\<open>validate_metadata\<close> and
  its result type) is not among the sources; the definitions of this section follow
  section 4.2 of the specification, rule by rule.  The specification leaves three things
  open, which are parameters here: the minimum length of a subject id, the list of the
  physiology-style modalities, and what makes coordinates well-formed.
\<close>

datatype severity = Error | Warning

record validation_issue =
  issue_field :: string
  issue_message :: string
  issue_severity :: severity

record validation_result =
  vr_status :: string
  completeness_score :: rat
  missing_required :: "string list"
  valid_fields :: "string list"
  issues :: "validation_issue list"

record validation_config =
  min_subject_id_length :: nat
  physiology_modalities :: "string list"
  well_formed_coordinates :: "json \<Rightarrow> bool"

definition REQUIRED_PATHS :: "(string \<times> string) list" where
  "REQUIRED_PATHS =
     [(''subject'', ''subject_id''), (''data_description'', ''modality''),
      (''data_description'', ''project_name'')]"

definition VALID_SEX :: "string list" where
  "VALID_SEX = [''Male'', ''Female'']"

definition VALID_MODALITIES :: "string list" where
  "VALID_MODALITIES =
     [''behavior'', ''behavior-videos'', ''confocal'', ''EMG'', ''ecephys'', ''fib'', ''fMOST'',
      ''icephys'', ''ISI'', ''MRI'', ''merfish'', ''pophys'', ''slap'', ''SPIM'']"

definition VALID_SPECIES :: "string list" where
  "VALID_SPECIES = [''Mus musculus'', ''Homo sapiens'']"

definition path_name :: "string \<times> string \<Rightarrow> string" where
  "path_name p = fst p @ ''.'' @ snd p"

text \<open>A dotted path is present when its section is a mapping that has the key.\<close>

definition lookup_path :: "(string \<times> json) list \<Rightarrow> string \<times> string \<Rightarrow> json option" where
  "lookup_path snapshot p =
     (case map_of snapshot (fst p) of
        Some (JObj kvs) \<Rightarrow> map_of kvs (snd p)
      | _ \<Rightarrow> None)"

definition present :: "(string \<times> json) list \<Rightarrow> string \<times> string \<Rightarrow> bool" where
  "present snapshot p \<longleftrightarrow> lookup_path snapshot p \<noteq> None"

definition issue :: "string \<Rightarrow> string \<Rightarrow> severity \<Rightarrow> validation_issue" where
  "issue f m s = \<lparr>issue_field = f, issue_message = m, issue_severity = s\<rparr>"

text \<open>The \<open>abbreviation\<close> values of the entries of \<open>data_description.modality\<close>.\<close>

fun abbreviation_of :: "json \<Rightarrow> json list" where
  "abbreviation_of (JObj kvs) = (case map_of kvs ''abbreviation'' of Some a \<Rightarrow> [a] | None \<Rightarrow> [])"
| "abbreviation_of _ = []"

definition modality_abbreviations :: "(string \<times> json) list \<Rightarrow> json list" where
  "modality_abbreviations snapshot =
     (case lookup_path snapshot (''data_description'', ''modality'') of
        Some (JArr entries) \<Rightarrow> concat (map abbreviation_of entries)
      | _ \<Rightarrow> [])"

text \<open>
  Required-field rules: an absent path goes to \<open>missing_required\<close>, a present one to
  \<open>valid_fields\<close> unless the format rule on the same path (the length of the subject id)
  fails.
\<close>

definition short_subject_id :: "validation_config \<Rightarrow> (string \<times> json) list \<Rightarrow> bool" where
  "short_subject_id cfg snapshot =
     (case lookup_path snapshot (''subject'', ''subject_id'') of
        Some (JStr s) \<Rightarrow> length s < min_subject_id_length cfg
      | _ \<Rightarrow> False)"

definition required_missing :: "(string \<times> json) list \<Rightarrow> string list" where
  "required_missing snapshot =
     map path_name (filter (\<lambda>p. \<not> present snapshot p) REQUIRED_PATHS)"

definition required_valid :: "validation_config \<Rightarrow> (string \<times> json) list \<Rightarrow> string list" where
  "required_valid cfg snapshot =
     map path_name
       (filter (\<lambda>p. present snapshot p
                  \<and> \<not> (p = (''subject'', ''subject_id'') \<and> short_subject_id cfg snapshot))
          REQUIRED_PATHS)"

text \<open>Enumeration rules, of severity error.\<close>

definition sex_issues :: "(string \<times> json) list \<Rightarrow> validation_issue list" where
  "sex_issues snapshot =
     (case lookup_path snapshot (''subject'', ''sex'') of
        None \<Rightarrow> []
      | Some v \<Rightarrow>
          if v \<in> set (map JStr VALID_SEX) then []
          else [issue ''subject.sex'' ''must be Male or Female'' Error])"

definition modality_issues :: "(string \<times> json) list \<Rightarrow> validation_issue list" where
  "modality_issues snapshot =
     map (\<lambda>a. issue ''data_description.modality'' ''unknown modality abbreviation'' Error)
       (filter (\<lambda>a. a \<notin> set (map JStr VALID_MODALITIES)) (modality_abbreviations snapshot))"

text \<open>Rules of severity warning.\<close>

definition species_issues :: "(string \<times> json) list \<Rightarrow> validation_issue list" where
  "species_issues snapshot =
     (case lookup_path snapshot (''subject'', ''species'') of
        Some (JObj kvs) \<Rightarrow>
          (case map_of kvs ''name'' of
             None \<Rightarrow> []
           | Some n \<Rightarrow>
               if n \<in> set (map JStr VALID_SPECIES) then []
               else [issue ''subject.species.name'' ''species is not recognized'' Warning])
      | _ \<Rightarrow> [])"

definition subject_id_issues :: "validation_config \<Rightarrow> (string \<times> json) list \<Rightarrow> validation_issue list" where
  "subject_id_issues cfg snapshot =
     (if short_subject_id cfg snapshot
      then [issue ''subject.subject_id'' ''subject id is shorter than expected'' Warning]
      else [])"

text \<open>Numeric rules on \<open>procedures\<close>.\<close>

definition positive_number :: "json \<Rightarrow> bool" where
  "positive_number v =
     (case v of
        JInt i \<Rightarrow> 0 < i
      | JFloat r \<Rightarrow> nonzero_literal r \<and> hd r \<noteq> CHR ''-'' \<and> r \<noteq> ''NaN''
      | _ \<Rightarrow> False)"

definition thickness_issues :: "(string \<times> json) list \<Rightarrow> validation_issue list" where
  "thickness_issues snapshot =
     (case lookup_path snapshot (''procedures'', ''section_thickness_um'') of
        None \<Rightarrow> []
      | Some v \<Rightarrow>
          if positive_number v then []
          else [issue ''procedures.section_thickness_um'' ''must be strictly positive'' Error])"

definition procedures_valid :: "validation_config \<Rightarrow> (string \<times> json) list \<Rightarrow> string list" where
  "procedures_valid cfg snapshot =
     (case lookup_path snapshot (''procedures'', ''section_thickness_um'') of
        Some v \<Rightarrow> if positive_number v then [''procedures.section_thickness_um''] else []
      | None \<Rightarrow> [])
     @ (case lookup_path snapshot (''procedures'', ''coordinates'') of
          Some c \<Rightarrow> if well_formed_coordinates cfg c then [''procedures.coordinates''] else []
        | None \<Rightarrow> [])"

text \<open>
  The cross-field rule: a physiology-style modality without any \<open>session\<close> section gives
  one warning on the field \<open>session\<close>.
\<close>

definition session_issues :: "validation_config \<Rightarrow> (string \<times> json) list \<Rightarrow> validation_issue list" where
  "session_issues cfg snapshot =
     (if list_ex (\<lambda>a. a \<in> set (map JStr (physiology_modalities cfg)))
           (modality_abbreviations snapshot)
         \<and> map_of snapshot ''session'' = None
      then [issue ''session'' ''session information is expected for physiology modalities''
              Warning]
      else [])"

definition all_issues :: "validation_config \<Rightarrow> (string \<times> json) list \<Rightarrow> validation_issue list" where
  "all_issues cfg snapshot =
     sex_issues snapshot @ modality_issues snapshot @ species_issues snapshot
     @ subject_id_issues cfg snapshot @ thickness_issues snapshot @ session_issues cfg snapshot"

text \<open>
  Modelled from the spec: \<open>validate_metadata\<close> of the missing module
  \<open>agent/validation.py\<close>.  The issues of all rules in the order of section 4.2, the
  status \<open>errors\<close> exactly when an issue of severity error exists, and the completeness
  score as the fraction of the required paths that are present.
\<close>

definition validate :: "validation_config \<Rightarrow> (string \<times> json) list \<Rightarrow> validation_result" where
  "validate cfg snapshot =
     \<lparr>vr_status =
        (if list_ex (\<lambda>i. issue_severity i = Error) (all_issues cfg snapshot)
         then ''errors'' else ''valid''),
      completeness_score =
        of_nat (length (filter (present snapshot) REQUIRED_PATHS))
          / of_nat (length REQUIRED_PATHS),
      missing_required = required_missing snapshot,
      valid_fields = required_valid cfg snapshot @ procedures_valid cfg snapshot,
      issues = all_issues cfg snapshot\<rparr>"

section \<open>A JSON codec\<close>

text \<open>
  An encoder in the way of \<open>json.dumps\<close> (default separators, \<open>ensure_ascii\<close>) and a
  decoder in the way of \<open>json.loads\<close> (the recursive descent of the library's scanner,
  with float literals and the constants \<open>NaN\<close>, \<open>Infinity\<close> and \<open>-Infinity\<close>).  They give
  the parameter \<open>json_module\<close> a value in the examples and in the theorem on sequences of
  capture calls.  One kind of text is beyond the decoder: an escape \<open>\uXXXX\<close> of a code
  point from 256 on denotes a character that the strings of the embedding do not have, so
  no value is built from a text with such an escape.

  \<open>wf_json\<close> holds of the values for which the round trip through the codec is proved
  below: they hold no float and, as in every Python dict, the keys of a dict are
  distinct.
\<close>

fun wf_json :: "json \<Rightarrow> bool"
  and wf_items :: "json list \<Rightarrow> bool"
  and wf_members :: "(string \<times> json) list \<Rightarrow> bool" where
  "wf_json (JArr xs) = wf_items xs"
| "wf_json (JObj kvs) = (distinct (map fst kvs) \<and> wf_members kvs)"
| "wf_json JNull = True"
| "wf_json (JBool b) = True"
| "wf_json (JInt i) = True"
| "wf_json (JFloat r) = False"
| "wf_json (JStr s) = True"
| "wf_items [] = True"
| "wf_items (x # xs) = (wf_json x \<and> wf_items xs)"
| "wf_members [] = True"
| "wf_members ((k, v) # kvs) = (wf_json v \<and> wf_members kvs)"

subsection \<open>The encoder\<close>

definition dq :: char where
  "dq = CHR 0x22"

definition backslash :: char where
  "backslash = CHR 0x5C"

definition hex_digit :: "nat \<Rightarrow> char" where
  "hex_digit d = (if d < 10 then char_of (48 + d) else char_of (87 + d))"

definition show_int :: "int \<Rightarrow> string" where
  "show_int i = (if i < 0 then CHR ''-'' # show_nat (nat (- i)) else show_nat (nat i))"

text \<open>
  The encoder runs with \<open>ensure_ascii=True\<close>: the quote and the backslash are escaped,
  the five named control characters take their short form, and every other character
  outside \<open>' '..'~'\<close> is written \<open>\uXXXX\<close> with lower-case hexadecimal digits.
\<close>

definition escape_char :: "char \<Rightarrow> string" where
  "escape_char c =
     (if c = dq then [backslash, dq]
      else if c = backslash then [backslash, backslash]
      else if c = CHR 0x0A then [backslash, CHR ''n'']
      else if c = CHR 0x0D then [backslash, CHR ''r'']
      else if c = CHR 0x09 then [backslash, CHR ''t'']
      else if c = CHR 0x08 then [backslash, CHR ''b'']
      else if c = CHR 0x0C then [backslash, CHR ''f'']
      else if 32 \<le> (of_char c :: nat) \<and> (of_char c :: nat) \<le> 126 then [c]
      else [backslash, CHR ''u'', CHR ''0'', CHR ''0'',
            hex_digit ((of_char c :: nat) div 16), hex_digit ((of_char c :: nat) mod 16)])"

definition encode_basestring :: "string \<Rightarrow> string" where
  "encode_basestring s = dq # concat (map escape_char s) @ [dq]"

fun plain_dumps :: "json \<Rightarrow> string"
  and dumps_items :: "json list \<Rightarrow> string"
  and dumps_members :: "(string \<times> json) list \<Rightarrow> string" where
  "plain_dumps JNull = ''null''"
| "plain_dumps (JBool b) = (if b then ''true'' else ''false'')"
| "plain_dumps (JInt i) = show_int i"
| "plain_dumps (JFloat r) = r"
| "plain_dumps (JStr s) = encode_basestring s"
| "plain_dumps (JArr xs) = CHR ''['' # dumps_items xs @ '']''"
| "plain_dumps (JObj kvs) = CHR ''{'' # dumps_members kvs @ ''}''"
| "dumps_items [] = []"
| "dumps_items [x] = plain_dumps x"
| "dumps_items (x # y # ys) = plain_dumps x @ '', '' @ dumps_items (y # ys)"
| "dumps_members [] = []"
| "dumps_members [(k, v)] = encode_basestring k @ '': '' @ plain_dumps v"
| "dumps_members ((k, v) # m # ms) =
     encode_basestring k @ '': '' @ plain_dumps v @ '', '' @ dumps_members (m # ms)"

subsection \<open>The decoder\<close>

definition is_ws :: "char \<Rightarrow> bool" where
  "is_ws c \<longleftrightarrow> c = CHR '' '' \<or> c = CHR 0x09 \<or> c = CHR 0x0A \<or> c = CHR 0x0D"

definition skip_ws :: "string \<Rightarrow> string" where
  "skip_ws s = dropWhile is_ws s"

definition is_digit :: "char \<Rightarrow> bool" where
  "is_digit c \<longleftrightarrow> 48 \<le> (of_char c :: nat) \<and> (of_char c :: nat) \<le> 57"

definition digit_val :: "char \<Rightarrow> nat" where
  "digit_val c = of_char c - 48"

definition nat_of_digits :: "string \<Rightarrow> nat" where
  "nat_of_digits ds = foldl (\<lambda>a c. 10 * a + digit_val c) 0 ds"

definition hex_val :: "char \<Rightarrow> nat option" where
  "hex_val c =
     (let n = (of_char c :: nat) in
      if 48 \<le> n \<and> n \<le> 57 then Some (n - 48)
      else if 97 \<le> n \<and> n \<le> 102 then Some (n - 87)
      else if 65 \<le> n \<and> n \<le> 70 then Some (n - 55)
      else None)"

definition hex4 :: "char \<Rightarrow> char \<Rightarrow> char \<Rightarrow> char \<Rightarrow> nat option" where
  "hex4 a b c d =
     (case (hex_val a, hex_val b, hex_val c, hex_val d) of
        (Some w, Some x, Some y, Some z) \<Rightarrow> Some (((w * 16 + x) * 16 + y) * 16 + z)
      | _ \<Rightarrow> None)"

definition unescape :: "char \<Rightarrow> char option" where
  "unescape e =
     (if e = dq then Some dq
      else if e = backslash then Some backslash
      else if e = CHR ''/'' then Some CHR ''/''
      else if e = CHR ''b'' then Some (CHR 0x08)
      else if e = CHR ''f'' then Some (CHR 0x0C)
      else if e = CHR ''n'' then Some (CHR 0x0A)
      else if e = CHR ''r'' then Some (CHR 0x0D)
      else if e = CHR ''t'' then Some (CHR 0x09)
      else None)"

definition cons_result :: "char \<Rightarrow> (string \<times> string) option \<Rightarrow> (string \<times> string) option" where
  "cons_result c r = (case r of None \<Rightarrow> None | Some (str, rest) \<Rightarrow> Some (c # str, rest))"

text \<open>
  \<open>scanstring\<close> reads a string literal after its opening quote (strict mode: a raw
  control character is an error).  An escape \<open>\uXXXX\<close> of a code point from 256 on
  denotes a character that the strings of the embedding do not have: no value is built.
\<close>

fun scanstring :: "string \<Rightarrow> (string \<times> string) option" where
  "scanstring [] = None"
| "scanstring (c # cs) =
     (if c = dq then Some ([], cs)
      else if c = backslash then
        (case cs of
           [] \<Rightarrow> None
         | e # cs' \<Rightarrow>
             if e = CHR ''u'' then
               (case cs' of
                  h1 # h2 # h3 # h4 # cs'' \<Rightarrow>
                    (case hex4 h1 h2 h3 h4 of
                       None \<Rightarrow> None
                     | Some n \<Rightarrow> if n < 256 then cons_result (char_of n) (scanstring cs'') else None)
                | _ \<Rightarrow> None)
             else
               (case unescape e of
                  None \<Rightarrow> None
                | Some ch \<Rightarrow> cons_result ch (scanstring cs')))
      else if (of_char c :: nat) < 32 then None
      else cons_result c (scanstring cs))"

text \<open>
  The number pattern \<open>(-?(?:0|[1-9][0-9]*))(\.[0-9]+)?([eE][-+]?[0-9]+)?\<close>: an integer
  part, then an optional fraction and an optional exponent, each taken only when it is
  complete.  With neither of them the literal is an integer; otherwise it is a float,
  which is held as the literal itself.
\<close>

definition scan_frac :: "string \<Rightarrow> string \<times> string" where
  "scan_frac s =
     (case s of
        c # d # ds \<Rightarrow>
          if c = CHR ''.'' \<and> is_digit d
          then (c # takeWhile is_digit (d # ds), dropWhile is_digit (d # ds))
          else ([], s)
      | _ \<Rightarrow> ([], s))"

definition scan_exp :: "string \<Rightarrow> string \<times> string" where
  "scan_exp s =
     (case s of
        [] \<Rightarrow> ([], s)
      | c # cs \<Rightarrow>
          if c = CHR ''e'' \<or> c = CHR ''E'' then
            (let (sg, ds) =
                   (case cs of
                      [] \<Rightarrow> ([], cs)
                    | x # xs \<Rightarrow> if x = CHR ''+'' \<or> x = CHR ''-'' then ([x], xs) else ([], cs))
             in case ds of
                  [] \<Rightarrow> ([], s)
                | d # _ \<Rightarrow>
                    if is_digit d
                    then (c # sg @ takeWhile is_digit ds, dropWhile is_digit ds)
                    else ([], s))
          else ([], s))"

definition scan_number :: "string \<Rightarrow> (json \<times> string) option" where
  "scan_number s =
     (let neg = (s \<noteq> [] \<and> hd s = CHR ''-'');
          s1 = (if neg then tl s else s)
      in case s1 of
           [] \<Rightarrow> None
         | d # ds \<Rightarrow>
             if \<not> is_digit d then None
             else
               (let (ip, r1) = (if d = CHR ''0'' then ([d], ds)
                                else (takeWhile is_digit s1, dropWhile is_digit s1));
                    (fr, r2) = scan_frac r1;
                    (ex, r3) = scan_exp r2
                in if fr = [] \<and> ex = []
                   then Some (JInt (if neg then - int (nat_of_digits ip)
                                    else int (nat_of_digits ip)), r3)
                   else Some (JFloat ((if neg then ''-'' else []) @ ip @ fr @ ex), r3)))"

text \<open>
  The recursive descent of the decoder.  The first argument bounds the number of nested
  calls; two nested calls consume at least one character, so twice the length of the text
  is enough (\<open>plain_loads\<close> starts it beyond that).
\<close>

fun scan_once :: "nat \<Rightarrow> string \<Rightarrow> (json \<times> string) option"
  and parse_array :: "nat \<Rightarrow> string \<Rightarrow> (json list \<times> string) option"
  and parse_object :: "nat \<Rightarrow> string \<Rightarrow> ((string \<times> json) list \<times> string) option" where
  "scan_once 0 s = None"
| "scan_once (Suc n) s =
     (case s of
        [] \<Rightarrow> None
      | c # cs \<Rightarrow>
          if c = dq then
            (case scanstring cs of None \<Rightarrow> None | Some (str, rest) \<Rightarrow> Some (JStr str, rest))
          else if c = CHR ''{'' then
            (case skip_ws cs of
               [] \<Rightarrow> None
             | c' # cs' \<Rightarrow>
                 if c' = CHR ''}'' then Some (JObj [], cs')
                 else
                   (case parse_object n (c' # cs') of
                      None \<Rightarrow> None
                    | Some (pairs, rest) \<Rightarrow> Some (JObj (dict_of_pairs pairs), rest)))
          else if c = CHR ''['' then
            (case skip_ws cs of
               [] \<Rightarrow> None
             | c' # cs' \<Rightarrow>
                 if c' = CHR '']'' then Some (JArr [], cs')
                 else
                   (case parse_array n (c' # cs') of
                      None \<Rightarrow> None
                    | Some (vs, rest) \<Rightarrow> Some (JArr vs, rest)))
          else if take 4 s = ''null'' then Some (JNull, drop 4 s)
          else if take 4 s = ''true'' then Some (JBool True, drop 4 s)
          else if take 5 s = ''false'' then Some (JBool False, drop 5 s)
          else if take 3 s = ''NaN'' then Some (JFloat ''NaN'', drop 3 s)
          else if take 8 s = ''Infinity'' then Some (JFloat ''Infinity'', drop 8 s)
          else if take 9 s = ''-Infinity'' then Some (JFloat ''-Infinity'', drop 9 s)
          else scan_number s)"
| "parse_array 0 s = None"
| "parse_array (Suc n) s =
     (case scan_once n s of
        None \<Rightarrow> None
      | Some (v, rest) \<Rightarrow>
          (case skip_ws rest of
             [] \<Rightarrow> None
           | c # cs \<Rightarrow>
               if c = CHR '']'' then Some ([v], cs)
               else if c = CHR '','' then
                 (case parse_array n (skip_ws cs) of
                    None \<Rightarrow> None
                  | Some (vs, rest') \<Rightarrow> Some (v # vs, rest'))
               else None))"
| "parse_object 0 s = None"
| "parse_object (Suc n) s =
     (case s of
        [] \<Rightarrow> None
      | c # cs \<Rightarrow>
          if c \<noteq> dq then None
          else
            (case scanstring cs of
               None \<Rightarrow> None
             | Some (key, rest) \<Rightarrow>
                 (case skip_ws rest of
                    [] \<Rightarrow> None
                  | c1 # cs1 \<Rightarrow>
                      if c1 \<noteq> CHR '':'' then None
                      else
                        (case scan_once n (skip_ws cs1) of
                           None \<Rightarrow> None
                         | Some (v, rest1) \<Rightarrow>
                             (case skip_ws rest1 of
                                [] \<Rightarrow> None
                              | c2 # cs2 \<Rightarrow>
                                  if c2 = CHR ''}'' then Some ([(key, v)], cs2)
                                  else if c2 = CHR '','' then
                                    (case parse_object n (skip_ws cs2) of
                                       None \<Rightarrow> None
                                     | Some (ms, rest2) \<Rightarrow> Some ((key, v) # ms, rest2))
                                  else None)))))"

text \<open>White space, one value, white space, and nothing else.\<close>

definition plain_loads :: "string \<Rightarrow> json option" where
  "plain_loads s =
     (case scan_once (Suc (2 * length s)) (skip_ws s) of
        None \<Rightarrow> None
      | Some (v, rest) \<Rightarrow> if skip_ws rest = [] then Some v else None)"

definition plain_json :: json_module where
  "plain_json = \<lparr>loads = plain_loads, dumps = plain_dumps\<rparr>"

section \<open>Auxiliary definitions and example data\<close>



text \<open>The row-wise effect of the \<open>UPDATE\<close> statement of \<open>confirm_metadata\<close>.\<close>

definition confirm_row :: "nat \<Rightarrow> string \<Rightarrow> draft_row \<Rightarrow> draft_row" where
  "confirm_row now i r =
     (if row_id r = i then r\<lparr>status := ''confirmed'', updated_at := now\<rparr> else r)"

definition example_row :: draft_row where
  "example_row =
     \<lparr>row_id = ''r1'', session_id = ''s1'', status = ''draft'', json_cols = (\<lambda>c. None),
      created_at = 1, updated_at = 1\<rparr>"

definition example_row2 :: draft_row where
  "example_row2 =
     \<lparr>row_id = ''r2'', session_id = ''s2'', status = ''draft'',
      json_cols =
        [''subject_json'' \<mapsto> ''{bad'', ''session_json'' \<mapsto> ''[1, 2]'',
         ''validation_results_json'' \<mapsto>
           plain_dumps (JObj [(''status'', JStr ''valid''),
                              (''completeness_score'', JFloat ''1.0'')])],
      created_at = 2, updated_at = 2\<rparr>"

text \<open>The table after two calls of \<open>save_draft_metadata\<close> for one session.\<close>

definition two_saves :: store where
  "two_saves =
     fst (save_draft_metadata plain_json ''b'' 2
            (fst (save_draft_metadata plain_json ''a'' 1 [] ''s1''
                    [(''subject'', JObj [(''subject_id'', JStr ''1'')])]))
            ''s1'' [(''subject'', JObj [(''subject_id'', JStr ''2'')])])"

definition example_config :: validation_config where
  "example_config =
     \<lparr>min_subject_id_length = 4, physiology_modalities = [''ecephys'', ''pophys''],
      well_formed_coordinates = is_dict\<rparr>"

definition modality_snapshot :: "string \<Rightarrow> (string \<times> json) list" where
  "modality_snapshot abbr =
     [(''data_description'', JObj [(''modality'', JArr [JObj [(''abbreviation'', JStr abbr)]])])]"

definition complete_snapshot :: "(string \<times> json) list" where
  "complete_snapshot =
     [(''subject'', JObj [(''subject_id'', JStr ''553429''),
                          (''species'', JObj [(''name'', JStr ''Canis lupus'')])]),
      (''data_description'',
         JObj [(''modality'', JArr [JObj [(''abbreviation'', JStr ''pophys'')]]),
               (''project_name'', JStr ''BrainMap'')])]"

definition bad_sex_snapshot :: "(string \<times> json) list" where
  "bad_sex_snapshot = [(''subject'', JObj [(''sex'', JStr ''unknown_value'')])]"

























section \<open>Reading a row\<close>








lemma set_insert_desc: "set (insert_desc r xs) = insert r (set xs)"
  by (induction xs) auto

lemma set_order_by: "set (order_by_created_at_desc rows) = set rows"
  unfolding order_by_created_at_desc_def
  by (induction rows) (simp_all add: set_insert_desc)









section \<open>Creating a draft\<close>

lemma bare_names:
  "map (str_remove ''_json'') METADATA_FIELDS =
     [''subject'', ''procedures'', ''data_description'', ''instrument'', ''acquisition'',
      ''session'', ''processing'', ''quality_control'', ''rig'']"
  by (simp add: METADATA_FIELDS_def)

lemma set_bare_names: "set (map (str_remove ''_json'') METADATA_FIELDS) = set metadata_fields"
  unfolding bare_names by (auto simp add: metadata_fields_def)

lemma foldl_save_column_cong:
  "(\<And>f. f \<in> set fs \<Longrightarrow>
      map_of m1 (str_remove ''_json'' f) = map_of m2 (str_remove ''_json'' f))
   \<Longrightarrow> foldl (save_column J m1) r fs = foldl (save_column J m2) r fs"
proof (induction fs arbitrary: r)
  case Nil
  then show ?case by simp
next
  case (Cons f fs)
  have "save_column J m1 r f = save_column J m2 r f"
    using Cons.prems[of f] by (simp add: save_column_def)
  then show ?case using Cons by simp
qed

lemma new_row_cong:
  assumes "\<And>k. k \<in> set metadata_fields \<Longrightarrow> map_of m1 k = map_of m2 k"
  shows "new_row J i now sid m1 = new_row J i now sid m2"
  unfolding new_row_def
proof (rule foldl_save_column_cong)
  fix f assume "f \<in> set METADATA_FIELDS"
  then have "str_remove ''_json'' f \<in> set metadata_fields"
    using set_bare_names by auto
  then show "map_of m1 (str_remove ''_json'' f) = map_of m2 (str_remove ''_json'' f)"
    by (rule assms)
qed

lemma save_column_fixed:
  "status (save_column J m r f) = status r \<and> created_at (save_column J m r f) = created_at r
   \<and> updated_at (save_column J m r f) = updated_at r
   \<and> session_id (save_column J m r f) = session_id r
   \<and> row_id (save_column J m r f) = row_id r"
  by (simp add: save_column_def Let_def split: option.splits)

lemma foldl_save_column_fixed:
  "status (foldl (save_column J m) r fs) = status r
   \<and> created_at (foldl (save_column J m) r fs) = created_at r
   \<and> updated_at (foldl (save_column J m) r fs) = updated_at r
   \<and> session_id (foldl (save_column J m) r fs) = session_id r
   \<and> row_id (foldl (save_column J m) r fs) = row_id r"
  by (induction fs arbitrary: r) (simp_all add: save_column_fixed)

lemma save_column_cols:
  "json_cols (save_column J m r f) c \<noteq> json_cols r c \<Longrightarrow> c = f"
  by (auto simp add: save_column_def Let_def split: option.splits if_splits)

lemma foldl_save_column_cols:
  "c \<notin> set fs \<Longrightarrow> json_cols (foldl (save_column J m) r fs) c = json_cols r c"
proof (induction fs arbitrary: r)
  case Nil
  then show ?case by simp
next
  case (Cons f fs)
  then show ?case using save_column_cols[of J m r f c] by auto
qed

text \<open>
  Claim C10.  \<open>save_draft_metadata\<close> reads its input only at the nine section names:
  two inputs that agree there give the same store and the same result, whatever other
  keys they hold, and there is no error outcome.  The call appends one row; it has
  status \<open>draft\<close>, equal \<open>created_at\<close> and \<open>updated_at\<close>, and nothing outside the nine
  section columns.
\<close>

theorem save_ignores_unknown_keys:
  "((\<forall>k \<in> set metadata_fields. map_of m1 k = map_of m2 k) \<longrightarrow>
      save_draft_metadata J draft_id now db sid m1 = save_draft_metadata J draft_id now db sid m2)
   \<and> fst (save_draft_metadata J draft_id now db sid m1) = db @ [new_row J draft_id now sid m1]
   \<and> status (new_row J draft_id now sid m1) = ''draft''
   \<and> created_at (new_row J draft_id now sid m1) = updated_at (new_row J draft_id now sid m1)
   \<and> (\<forall>c. c \<notin> set METADATA_FIELDS \<longrightarrow> json_cols (new_row J draft_id now sid m1) c = None)"
proof -
  have "(\<forall>k \<in> set metadata_fields. map_of m1 k = map_of m2 k) \<longrightarrow>
      save_draft_metadata J draft_id now db sid m1 = save_draft_metadata J draft_id now db sid m2"
    using new_row_cong[of m1 m2] by (simp add: save_draft_metadata_def)
  moreover have "fst (save_draft_metadata J draft_id now db sid m1)
      = db @ [new_row J draft_id now sid m1]"
    by (simp add: save_draft_metadata_def Let_def)
  moreover have "status (new_row J draft_id now sid m1) = ''draft''"
    by (simp add: new_row_def foldl_save_column_fixed)
  moreover have "created_at (new_row J draft_id now sid m1)
      = updated_at (new_row J draft_id now sid m1)"
    by (simp add: new_row_def foldl_save_column_fixed)
  moreover have "\<forall>c. c \<notin> set METADATA_FIELDS \<longrightarrow>
      json_cols (new_row J draft_id now sid m1) c = None"
    by (simp add: new_row_def foldl_save_column_cols)
  ultimately show ?thesis by blast
qed

theorem save_ignores_unknown_keys_witness:
  "save_draft_metadata plain_json ''r9'' 7 [example_row] ''s1''
       [(''favourite_colour'', JStr ''blue''), (''subject'', JObj [(''subject_id'', JStr ''100'')])]
     = save_draft_metadata plain_json ''r9'' 7 [example_row] ''s1''
         [(''subject'', JObj [(''subject_id'', JStr ''100'')])]
   \<and> json_cols (new_row plain_json ''r9'' 7 ''s1''
         [(''favourite_colour'', JStr ''blue''), (''subject'', JObj [(''subject_id'', JStr ''100'')])])
       ''favourite_colour'' = None
   \<and> status (new_row plain_json ''r9'' 7 ''s1''
         [(''favourite_colour'', JStr ''blue''), (''subject'', JObj [(''subject_id'', JStr ''100'')])])
       = ''draft''"
  using save_ignores_unknown_keys
          [where ?m1.0 = "[(''favourite_colour'', JStr ''blue''),
                            (''subject'', JObj [(''subject_id'', JStr ''100'')])]"
             and ?m2.0 = "[(''subject'', JObj [(''subject_id'', JStr ''100'')])]"
             and J = plain_json and draft_id = "''r9''" and now = 7 and db = "[example_row]"
             and sid = "''s1''"]
  by (simp add: metadata_fields_def METADATA_FIELDS_def)

section \<open>Updating a field\<close>

lemma METADATA_FIELDS_suffix:
  "METADATA_FIELDS = map (\<lambda>b. b @ ''_json'')
     [''subject'', ''procedures'', ''data_description'', ''instrument'', ''acquisition'',
      ''session'', ''processing'', ''quality_control'', ''rig'']"
  by (simp add: METADATA_FIELDS_def)

lemma column_known_iff:
  "(field @ ''_json'' \<in> set METADATA_FIELDS) = (field \<in> set metadata_fields)"
proof -
  have "(field @ ''_json'' \<in> (\<lambda>b. b @ ''_json'') ` set metadata_fields)
      = (field \<in> set metadata_fields)"
    by (rule inj_image_mem_iff) (simp add: inj_on_def)
  moreover have "set METADATA_FIELDS = (\<lambda>b. b @ ''_json'') ` set metadata_fields"
    unfolding METADATA_FIELDS_suffix by (auto simp add: metadata_fields_def)
  ultimately show ?thesis by simp
qed

lemma validation_column_iff:
  "(field @ ''_json'' = ''validation_results_json'') = (field = ''validation_results'')"
proof -
  have "(field @ ''_json'' = ''validation_results'' @ ''_json'') = (field = ''validation_results'')"
    by (rule append_same_eq)
  then show ?thesis by simp
qed

text \<open>
  Claim C3, as stated, fails: the field name \<open>subject_json\<close> is neither one of the nine
  section names nor \<open>validation_results\<close>, and \<open>update_draft_metadata\<close> takes it for the
  column of that name, writes the column and bumps \<open>updated_at\<close>.
\<close>

theorem update_suffixed_field_counterexample:
  "''subject_json'' \<notin> set metadata_fields
   \<and> ''subject_json'' \<noteq> ''validation_results''
   \<and> map updated_at (fst (update_draft_metadata plain_json 2 [example_row] ''s1'' ''subject_json'' (JInt 7)))
       = [2]
   \<and> map (\<lambda>r. json_cols r ''subject_json'')
         (fst (update_draft_metadata plain_json 2 [example_row] ''s1'' ''subject_json'' (JInt 7)))
       = [Some ''7'']
   \<and> \<not> isl (snd (update_draft_metadata plain_json 2 [example_row] ''s1'' ''subject_json'' (JInt 7)))"
  by code_simp

text \<open>
  Claim C3, amended.  The suffix \<open>_json\<close> is added to a field name that lacks it, so a
  field name is unknown when it is neither one of the nine section names, nor
  \<open>validation_results\<close>, nor one of these ten names with the suffix \<open>_json\<close>.  For every
  such name, every session and every value, \<open>update_draft_metadata\<close> returns the error
  dict and the table is unchanged: no column is written and no \<open>updated_at\<close> is bumped.
\<close>

theorem update_unknown_field:
  assumes "field \<notin> set metadata_fields" and "field \<noteq> ''validation_results''"
    and "field \<notin> set METADATA_FIELDS" and "field \<noteq> ''validation_results_json''"
  shows "update_draft_metadata J now db sid field v
           = (db, Inl (''Unknown metadata field: '' @ field))"
  using assms
  by (simp add: update_draft_metadata_def column_known_iff validation_column_iff)

theorem update_unknown_field_witness:
  "''nonexistent_field'' \<notin> set metadata_fields
   \<and> ''nonexistent_field'' \<notin> set METADATA_FIELDS
   \<and> update_draft_metadata plain_json 2 [example_row] ''s1'' ''nonexistent_field''
         (JObj [(''foo'', JStr ''bar'')])
       = ([example_row], Inl ''Unknown metadata field: nonexistent_field'')"
  using update_unknown_field
          [where field = "''nonexistent_field''" and J = plain_json and now = 2
             and db = "[example_row]" and sid = "''s1''" and v = "JObj [(''foo'', JStr ''bar'')]"]
  by (simp add: metadata_fields_def METADATA_FIELDS_def)

section \<open>Rejected capture requests\<close>

lemma collect_nothing:
  "(\<forall>f \<in> set fs. get f = JNull) \<Longrightarrow> foldl (collect_field J get) acc fs = acc"
  by (induction fs arbitrary: acc) (simp_all add: collect_field_def)

text \<open>
  Claim C4, as stated, fails: a request whose only section value is the empty mapping
  has no non-empty section value, and the handler does not reject it.  It creates a draft
  whose \<open>subject\<close> column holds the text of the empty mapping and answers that one field
  was saved.
\<close>

theorem capture_empty_mapping_counterexample:
  "\<not> truthy (JObj [])
   \<and> map (\<lambda>r. (session_id r, json_cols r ''subject_json''))
       (fst (capture_metadata_handler plain_json (\<lambda>m. Inr JNull) ''r1'' (\<lambda>k. k) []
              \<lparr>arg_session_id = Some ''s1'',
               arg_get = (\<lambda>f. if f = ''subject'' then JObj [] else JNull)\<rparr>))
     = [(''s1'', Some ''{}'')]
   \<and> snd (capture_metadata_handler plain_json (\<lambda>m. Inr JNull) ''r1'' (\<lambda>k. k) []
              \<lparr>arg_session_id = Some ''s1'',
               arg_get = (\<lambda>f. if f = ''subject'' then JObj [] else JNull)\<rparr>)
     = saved_text plain_json ''s1'' [(''subject'', JObj [])]
   \<and> saved_text plain_json ''s1'' [(''subject'', JObj [])] \<noteq> no_fields_text"
  by code_simp

text \<open>
  Claim C4, amended.  The handler answers \<open>Error: session_id is required\<close> when the session
  id is missing or the empty string, and \<open>No metadata fields provided ...\<close> when
  \<open>args.get(field)\<close> is \<open>None\<close> for each of the nine sections (the key is missing, or its
  value is \<open>None\<close>); a section value that is empty but not \<open>None\<close> counts as provided.  In
  both cases the store is returned as it was, and the answer is an ordinary return value.
\<close>

theorem capture_rejects:
  "((arg_session_id args = None \<or> arg_session_id args = Some []) \<longrightarrow>
      capture_metadata_handler J validate_metadata draft_id clock db args
        = (db, ''Error: session_id is required''))
   \<and> (arg_session_id args \<noteq> None \<and> arg_session_id args \<noteq> Some []
        \<and> (\<forall>f \<in> set metadata_fields. arg_get args f = JNull) \<longrightarrow>
      capture_metadata_handler J validate_metadata draft_id clock db args = (db, no_fields_text))"
  by (auto simp add: capture_metadata_handler_def collect_nothing split: option.splits)

theorem capture_rejects_witness:
  "capture_metadata_handler plain_json (\<lambda>m. Inr JNull) ''r9'' (\<lambda>k. k) [example_row]
       \<lparr>arg_session_id = None, arg_get = (\<lambda>f. JNull)\<rparr>
     = ([example_row], ''Error: session_id is required'')
   \<and> capture_metadata_handler plain_json (\<lambda>m. Inr JNull) ''r9'' (\<lambda>k. k) [example_row]
       \<lparr>arg_session_id = Some '''', arg_get = (\<lambda>f. if f = ''subject'' then JObj [] else JNull)\<rparr>
     = ([example_row], ''Error: session_id is required'')
   \<and> capture_metadata_handler plain_json (\<lambda>m. Inr JNull) ''r9'' (\<lambda>k. k) [example_row]
       \<lparr>arg_session_id = Some ''lonely-session'', arg_get = (\<lambda>f. JNull)\<rparr>
     = ([example_row], no_fields_text)"
  using capture_rejects
          [where args = "\<lparr>arg_session_id = None, arg_get = (\<lambda>f. JNull)\<rparr>"
             and J = plain_json and validate_metadata = "\<lambda>m. Inr JNull" and draft_id = "''r9''"
             and clock = "\<lambda>k. k" and db = "[example_row]"]
        capture_rejects
          [where args = "\<lparr>arg_session_id = Some '''',
                          arg_get = (\<lambda>f. if f = ''subject'' then JObj [] else JNull)\<rparr>"
             and J = plain_json and validate_metadata = "\<lambda>m. Inr JNull" and draft_id = "''r9''"
             and clock = "\<lambda>k. k" and db = "[example_row]"]
        capture_rejects
          [where args = "\<lparr>arg_session_id = Some ''lonely-session'', arg_get = (\<lambda>f. JNull)\<rparr>"
             and J = plain_json and validate_metadata = "\<lambda>m. Inr JNull" and draft_id = "''r9''"
             and clock = "\<lambda>k. k" and db = "[example_row]"]
  by simp

section \<open>Listing and confirming\<close>

lemma sorted_insert_desc:
  "sorted_wrt (\<lambda>a b. created_at b \<le> created_at a) xs
   \<Longrightarrow> sorted_wrt (\<lambda>a b. created_at b \<le> created_at a) (insert_desc r xs)"
  by (induction xs) (auto simp add: set_insert_desc)

lemma sorted_order_by:
  "sorted_wrt (\<lambda>a b. created_at b \<le> created_at a) (order_by_created_at_desc rows)"
  unfolding order_by_created_at_desc_def
  by (induction rows) (simp_all add: sorted_insert_desc)

text \<open>
  A row-wise change that keeps \<open>created_at\<close> commutes with the ordering, and one that
  keeps \<open>session_id\<close> as well commutes with the choice of the current draft.
\<close>

lemma insert_desc_map:
  assumes "\<And>r. created_at (g r) = created_at r"
  shows "insert_desc (g r) (map g xs) = map g (insert_desc r xs)"
  by (induction xs) (simp_all add: assms)

lemma order_by_map:
  assumes "\<And>r. created_at (g r) = created_at r"
  shows "order_by_created_at_desc (map g rows) = map g (order_by_created_at_desc rows)"
  unfolding order_by_created_at_desc_def
  by (induction rows) (simp_all add: insert_desc_map[OF assms])

lemma latest_row_map:
  assumes c: "\<And>r. created_at (g r) = created_at r"
    and s: "\<And>r. session_id (g r) = session_id r"
  shows "latest_row (map g db) sid = map_option g (latest_row db sid)"
proof -
  have "filter (\<lambda>r. session_id r = sid) (map g db)
      = map g (filter (\<lambda>r. session_id r = sid) db)"
    by (simp add: filter_map comp_def s)
  then show ?thesis
    by (simp add: latest_row_def order_by_map[OF c] split: list.splits)
qed

lemma latest_row_in: "latest_row db sid = Some r \<Longrightarrow> r \<in> set db \<and> session_id r = sid"
proof -
  assume "latest_row db sid = Some r"
  then obtain rest where
    "order_by_created_at_desc (filter (\<lambda>r. session_id r = sid) db) = r # rest"
    by (auto simp add: latest_row_def split: list.splits)
  then have "r \<in> set (order_by_created_at_desc (filter (\<lambda>r. session_id r = sid) db))"
    by simp
  then show ?thesis by (simp add: set_order_by)
qed

lemma confirm_row_keeps:
  "created_at (confirm_row now i r) = created_at r"
  "row_id (confirm_row now i r) = row_id r"
  "session_id (confirm_row now i r) = session_id r"
  by (simp_all add: confirm_row_def)

lemma fst_confirm:
  "fst (confirm_metadata J now db sid) =
     (case latest_row db sid of
        None \<Rightarrow> db
      | Some row \<Rightarrow> map (confirm_row now (row_id row)) db)"
  by (simp add: confirm_metadata_def confirm_row_def Let_def split: option.splits)

lemma list_after_confirm:
  "list_all_drafts J (fst (confirm_metadata J now db sid)) None =
     (case latest_row db sid of
        None \<Rightarrow> list_all_drafts J db None
      | Some row \<Rightarrow>
          map (row_to_dict J \<circ> confirm_row now (row_id row)) (order_by_created_at_desc db))"
  by (simp add: fst_confirm list_all_drafts_def order_by_map confirm_row_keeps
      split: option.splits)

lemma count_insert_desc: "count_list (insert_desc r xs) y = count_list (r # xs) y"
  by (induction xs) auto

lemma count_order_by: "count_list (order_by_created_at_desc rows) y = count_list rows y"
  unfolding order_by_created_at_desc_def
  by (induction rows) (simp_all add: count_insert_desc)

text \<open>
  Claim C8, as stated, fails: the listing is read from the whole table, and a session
  may have more rows than its current draft.  After two calls of \<open>save_draft_metadata\<close>
  for the session \<open>s1\<close> the table holds two rows of that session; the current draft is
  the row \<open>b\<close>, and the listing holds the superseded row \<open>a\<close> as well.
\<close>

theorem list_holds_superseded_row_counterexample:
  "map session_id two_saves = [''s1'', ''s1'']
   \<and> map_option row_id (latest_row two_saves ''s1'') = Some ''b''
   \<and> map d_id (list_all_drafts plain_json two_saves None) = [''b'', ''a'']
   \<and> map d_session_id (list_all_drafts plain_json two_saves None) = [''s1'', ''s1'']"
  by code_simp

text \<open>
  Claim C8, amended.  The unfiltered listing holds every row of the table, each one as
  often as the table has it, decoded and in descending order of \<open>created_at\<close>; so it
  holds the current draft of every session, and the rows that those drafts superseded.
  Confirming a draft sets the status of the session's current row to \<open>confirmed\<close> and its
  \<open>updated_at\<close> to the clock reading, and the listing afterwards shows the same record
  ids with the same \<open>created_at\<close> at the same positions as before.
\<close>

theorem list_newest_first_confirm_keeps_rank:
  "sorted_wrt (\<lambda>a b. d_created_at b \<le> d_created_at a) (list_all_drafts J db None)
   \<and> list_all_drafts J db None = map (row_to_dict J) (order_by_created_at_desc db)
   \<and> (\<forall>r. count_list (order_by_created_at_desc db) r = count_list db r)
   \<and> (\<forall>s row. latest_row db s = Some row \<longrightarrow>
         row_to_dict J row \<in> set (list_all_drafts J db None))
   \<and> map d_id (list_all_drafts J (fst (confirm_metadata J now db sid)) None)
       = map d_id (list_all_drafts J db None)
   \<and> map d_created_at (list_all_drafts J (fst (confirm_metadata J now db sid)) None)
       = map d_created_at (list_all_drafts J db None)
   \<and> (\<forall>row. latest_row db sid = Some row \<longrightarrow>
         latest_row (fst (confirm_metadata J now db sid)) sid
           = Some (row\<lparr>status := ''confirmed'', updated_at := now\<rparr>))"
proof -
  have s: "sorted_wrt (\<lambda>a b. d_created_at b \<le> d_created_at a) (list_all_drafts J db None)"
    using sorted_order_by[of db]
    by (simp add: list_all_drafts_def sorted_wrt_map row_to_dict_def)
  have l: "list_all_drafts J db None = map (row_to_dict J) (order_by_created_at_desc db)"
    by (simp add: list_all_drafts_def)
  have n: "\<forall>r. count_list (order_by_created_at_desc db) r = count_list db r"
    by (simp add: count_order_by)
  have a: "\<forall>s row. latest_row db s = Some row \<longrightarrow>
      row_to_dict J row \<in> set (list_all_drafts J db None)"
    using latest_row_in by (auto simp add: list_all_drafts_def set_order_by)
  have i: "map d_id (list_all_drafts J (fst (confirm_metadata J now db sid)) None)
      = map d_id (list_all_drafts J db None)"
    unfolding list_after_confirm
    by (simp add: list_all_drafts_def row_to_dict_def confirm_row_keeps split: option.splits)
  have t: "map d_created_at (list_all_drafts J (fst (confirm_metadata J now db sid)) None)
      = map d_created_at (list_all_drafts J db None)"
    unfolding list_after_confirm
    by (simp add: list_all_drafts_def row_to_dict_def confirm_row_keeps split: option.splits)
  have c: "\<forall>row. latest_row db sid = Some row \<longrightarrow>
      latest_row (fst (confirm_metadata J now db sid)) sid
        = Some (row\<lparr>status := ''confirmed'', updated_at := now\<rparr>)"
    by (simp add: fst_confirm latest_row_map confirm_row_keeps) (simp add: confirm_row_def)
  from s l n a i t c show ?thesis by blast
qed

lemma example_listing:
  "map d_id (list_all_drafts plain_json [example_row, example_row2] None) = [''r2'', ''r1'']"
  by code_simp

lemma example_latest_row1:
  "latest_row [example_row, example_row2] ''s1'' = Some example_row"
  by (simp add: latest_row_def order_by_created_at_desc_def example_row_def example_row2_def)

theorem list_newest_first_confirm_keeps_rank_witness:
  "map d_id (list_all_drafts plain_json [example_row, example_row2] None) = [''r2'', ''r1'']
   \<and> map d_id (list_all_drafts plain_json
         (fst (confirm_metadata plain_json 5 [example_row, example_row2] ''s1'')) None)
       = [''r2'', ''r1'']
   \<and> latest_row (fst (confirm_metadata plain_json 5 [example_row, example_row2] ''s1'')) ''s1''
       = Some (example_row\<lparr>status := ''confirmed'', updated_at := 5\<rparr>)"
  using list_newest_first_confirm_keeps_rank
          [where J = plain_json and db = "[example_row, example_row2]" and now = 5
             and sid = "''s1''"]
        example_listing example_latest_row1
  by simp

section \<open>Properties of the validation engine\<close>

text \<open>
  Claim C5.  On the empty snapshot the validator returns the completeness score 0, the
  three required paths as \<open>missing_required\<close>, no issue at all, and the status \<open>valid\<close>:
  a missing required field shows in \<open>missing_required\<close> and in the score only.
\<close>

theorem validate_empty_snapshot:
  "completeness_score (validate cfg []) = 0
   \<and> missing_required (validate cfg []) =
       [''subject.subject_id'', ''data_description.modality'', ''data_description.project_name'']
   \<and> issues (validate cfg []) = []
   \<and> vr_status (validate cfg []) = ''valid''"
  by (simp add: validate_def required_missing_def present_def lookup_path_def REQUIRED_PATHS_def
      path_name_def all_issues_def sex_issues_def modality_issues_def species_issues_def
      subject_id_issues_def thickness_issues_def session_issues_def modality_abbreviations_def
      short_subject_id_def)

text \<open>
  Claim C6.  The status is \<open>errors\<close> exactly when some issue of the result has severity
  error, and it is \<open>valid\<close> otherwise; so a result whose issues are all warnings is
  \<open>valid\<close>, and when moreover the three required paths are present its completeness
  score is 1.
\<close>

theorem status_errors_iff_error_issue:
  "(vr_status (validate cfg s) = ''errors'')
     = (\<exists>i \<in> set (issues (validate cfg s)). issue_severity i = Error)
   \<and> (vr_status (validate cfg s) \<noteq> ''errors'' \<longrightarrow> vr_status (validate cfg s) = ''valid'')
   \<and> ((\<forall>i \<in> set (issues (validate cfg s)). issue_severity i = Warning) \<longrightarrow>
        vr_status (validate cfg s) = ''valid'')
   \<and> ((\<forall>p \<in> set REQUIRED_PATHS. present s p)
        \<and> (\<forall>i \<in> set (issues (validate cfg s)). issue_severity i = Warning) \<longrightarrow>
        vr_status (validate cfg s) = ''valid'' \<and> completeness_score (validate cfg s) = 1)"
proof -
  have e: "(vr_status (validate cfg s) = ''errors'')
      = (\<exists>i \<in> set (issues (validate cfg s)). issue_severity i = Error)"
    by (simp add: validate_def list_ex_iff)
  have v: "vr_status (validate cfg s) \<noteq> ''errors'' \<longrightarrow> vr_status (validate cfg s) = ''valid''"
    by (simp add: validate_def)
  have w: "(\<forall>i \<in> set (issues (validate cfg s)). issue_severity i = Warning) \<longrightarrow>
      vr_status (validate cfg s) = ''valid''"
    using e v by auto
  have c: "(\<forall>p \<in> set REQUIRED_PATHS. present s p) \<longrightarrow> completeness_score (validate cfg s) = 1"
    by (simp add: validate_def REQUIRED_PATHS_def)
  from e v w c show ?thesis by blast
qed

lemma complete_snapshot_issues:
  "issues (validate example_config complete_snapshot)
     = [issue ''subject.species.name'' ''species is not recognized'' Warning,
        issue ''session'' ''session information is expected for physiology modalities'' Warning]"
  by code_simp

lemma complete_snapshot_present: "list_all (present complete_snapshot) REQUIRED_PATHS"
  by code_simp

lemma bad_sex_snapshot_issues:
  "issues (validate example_config bad_sex_snapshot)
     = [issue ''subject.sex'' ''must be Male or Female'' Error]"
  by code_simp

lemma complete_snapshot_only_warnings:
  "\<forall>i \<in> set (issues (validate example_config complete_snapshot)). issue_severity i = Warning"
  unfolding complete_snapshot_issues by (simp add: issue_def)

lemma complete_snapshot_required:
  "\<forall>p \<in> set REQUIRED_PATHS. present complete_snapshot p"
  using complete_snapshot_present unfolding list_all_iff .

lemma bad_sex_snapshot_error:
  "\<exists>i \<in> set (issues (validate example_config bad_sex_snapshot)). issue_severity i = Error"
  unfolding bad_sex_snapshot_issues by (simp add: issue_def)

theorem status_errors_iff_error_issue_witness:
  "vr_status (validate example_config complete_snapshot) = ''valid''
   \<and> completeness_score (validate example_config complete_snapshot) = 1
   \<and> vr_status (validate example_config bad_sex_snapshot) = ''errors''"
proof -
  note t1 = status_errors_iff_error_issue
              [of example_config complete_snapshot, THEN conjunct2, THEN conjunct2,
               THEN conjunct2, THEN mp,
               OF conjI [OF complete_snapshot_required complete_snapshot_only_warnings]]
  note t2 = status_errors_iff_error_issue
              [of example_config bad_sex_snapshot, THEN conjunct1, THEN iffD2,
               OF bad_sex_snapshot_error]
  show ?thesis
    by (rule conjI [OF t1 [THEN conjunct1] conjI [OF t1 [THEN conjunct2] t2]])
qed

lemma no_session_issue_sex:
  "filter (\<lambda>i. issue_field i = ''session'') (sex_issues s) = []"
  by (simp add: sex_issues_def issue_def split: option.splits)

lemma no_session_issue_modality:
  "filter (\<lambda>i. issue_field i = ''session'') (modality_issues s) = []"
  by (simp add: modality_issues_def issue_def filter_empty_conv)

lemma no_session_issue_species:
  "filter (\<lambda>i. issue_field i = ''session'') (species_issues s) = []"
  by (simp add: species_issues_def issue_def split: option.splits json.splits)

lemma no_session_issue_subject_id:
  "filter (\<lambda>i. issue_field i = ''session'') (subject_id_issues cfg s) = []"
  by (simp add: subject_id_issues_def issue_def)

lemma no_session_issue_thickness:
  "filter (\<lambda>i. issue_field i = ''session'') (thickness_issues s) = []"
  by (simp add: thickness_issues_def issue_def split: option.splits json.splits)

lemma session_keyed_issues:
  "filter (\<lambda>i. issue_field i = ''session'') (issues (validate cfg s)) = session_issues cfg s"
  by (simp add: validate_def all_issues_def no_session_issue_sex no_session_issue_modality
      no_session_issue_species no_session_issue_subject_id no_session_issue_thickness
      session_issues_def issue_def)

text \<open>
  Claim C7.  When some entry of \<open>data_description.modality\<close> has one of the
  physiology-style abbreviations and the snapshot has no \<open>session\<close> section, exactly one
  issue of the result is keyed on the field \<open>session\<close>, and it is a warning.  When no
  entry has such an abbreviation, no issue is keyed on \<open>session\<close>.
\<close>

theorem physiology_without_session_warns_once:
  "((\<exists>a \<in> set (modality_abbreviations s). a \<in> set (map JStr (physiology_modalities cfg)))
      \<and> map_of s ''session'' = None \<longrightarrow>
      filter (\<lambda>i. issue_field i = ''session'') (issues (validate cfg s))
        = [issue ''session'' ''session information is expected for physiology modalities''
             Warning])
   \<and> ((\<forall>a \<in> set (modality_abbreviations s). a \<notin> set (map JStr (physiology_modalities cfg))) \<longrightarrow>
      filter (\<lambda>i. issue_field i = ''session'') (issues (validate cfg s)) = [])"
  unfolding session_keyed_issues
  by (auto simp add: session_issues_def list_ex_iff)

lemma example_abbreviations:
  "modality_abbreviations (modality_snapshot ''ecephys'') = [JStr ''ecephys'']
   \<and> modality_abbreviations (modality_snapshot ''SPIM'') = [JStr ''SPIM'']
   \<and> map_of (modality_snapshot ''ecephys'') ''session'' = None"
  by code_simp

theorem physiology_without_session_warns_once_witness:
  "filter (\<lambda>i. issue_field i = ''session'')
       (issues (validate example_config (modality_snapshot ''ecephys'')))
     = [issue ''session'' ''session information is expected for physiology modalities'' Warning]
   \<and> filter (\<lambda>i. issue_field i = ''session'')
       (issues (validate example_config (modality_snapshot ''SPIM''))) = []"
proof -
  have h1: "(\<exists>a \<in> set (modality_abbreviations (modality_snapshot ''ecephys'')).
               a \<in> set (map JStr (physiology_modalities example_config)))
            \<and> map_of (modality_snapshot ''ecephys'') ''session'' = None"
    using example_abbreviations by (simp add: example_config_def)
  have h2: "\<forall>a \<in> set (modality_abbreviations (modality_snapshot ''SPIM'')).
              a \<notin> set (map JStr (physiology_modalities example_config))"
    using example_abbreviations by (simp add: example_config_def)
  show ?thesis
    using physiology_without_session_warns_once
            [of "modality_snapshot ''ecephys''" example_config, THEN conjunct1, THEN mp, OF h1]
          physiology_without_session_warns_once
            [of "modality_snapshot ''SPIM''" example_config, THEN conjunct2, THEN mp, OF h2]
    by (rule conjI)
qed

section \<open>The bound of the decoder\<close>

text \<open>
  Every successful scan consumes input, so the bound that \<open>plain_loads\<close> passes is never
  the reason for a decoding error: any larger bound gives the same result.
\<close>

lemma length_skip_ws: "length (skip_ws s) \<le> length s"
  by (simp add: skip_ws_def length_dropWhile_le)

lemma scanstring_consumes: "scanstring s = Some (str, r) \<Longrightarrow> length r < length s"
proof (induction s arbitrary: str r rule: scanstring.induct)
  case 1
  then show ?case by simp
next
  case (2 c cs)
  then show ?case
    by (auto simp add: cons_result_def split: if_splits list.splits option.splits prod.splits)
      fastforce+
qed

lemma scan_frac_length: "length (snd (scan_frac s)) \<le> length s"
proof -
  have "length (dropWhile is_digit xs) \<le> length xs" for xs
    by (rule length_dropWhile_le)
  then show ?thesis
    by (auto simp add: scan_frac_def le_Suc_eq split: list.splits)
qed

lemma scan_exp_length: "length (snd (scan_exp s)) \<le> length s"
proof -
  have d: "length (dropWhile is_digit xs) \<le> length xs" for xs
    by (rule length_dropWhile_le)
  show ?thesis
  proof (cases s)
    case Nil
    then show ?thesis by (simp add: scan_exp_def)
  next
    case (Cons c cs)
    show ?thesis
    proof (cases cs)
      case Nil
      then show ?thesis using Cons by (simp add: scan_exp_def)
    next
      case (Cons x xs)
      then show ?thesis using \<open>s = c # cs\<close> d[of cs] d[of xs]
        by (auto simp add: scan_exp_def Let_def split: list.splits)
    qed
  qed
qed

lemma scan_number_consumes: "scan_number s = Some (v, r) \<Longrightarrow> length r < length s"
proof -
  assume h: "scan_number s = Some (v, r)"
  define s1 where "s1 = (if s \<noteq> [] \<and> hd s = CHR ''-'' then tl s else s)"
  have l1: "length s1 \<le> length s" by (simp add: s1_def)
  obtain d ds where s1: "s1 = d # ds" and dg: "is_digit d"
    using h by (cases s1) (auto simp add: scan_number_def s1_def Let_def split: if_splits)
  define r1 where "r1 = (if d = CHR ''0'' then ds else dropWhile is_digit s1)"
  have "length (dropWhile is_digit ds) \<le> length ds" by (rule length_dropWhile_le)
  then have l2: "length r1 < length s1" using dg by (simp add: r1_def s1)
  have r: "r = snd (scan_exp (snd (scan_frac r1)))"
    using h dg
    by (auto simp add: scan_number_def s1_def[symmetric] s1 r1_def Let_def
        split: if_splits prod.splits)
  show ?thesis
    unfolding r
    using l1 l2 scan_frac_length[of r1] scan_exp_length[of "snd (scan_frac r1)"] by simp
qed


lemma skip_ws_Cons_length: "skip_ws s = c # cs \<Longrightarrow> length cs < length s"
  using length_skip_ws[of s] by simp

lemma scan_consumes:
  "(\<forall>s v r. scan_once n s = Some (v, r) \<longrightarrow> length r < length s)
   \<and> (\<forall>s vs r. parse_array n s = Some (vs, r) \<longrightarrow> length r < length s)
   \<and> (\<forall>s ps r. parse_object n s = Some (ps, r) \<longrightarrow> length r < length s)"
proof (induction n)
  case 0
  then show ?case by simp
next
  case (Suc n)
  have a: "scan_once n s = Some (v, r) \<Longrightarrow> length r < length s" for s v r
    using Suc by blast
  have b: "parse_array n s = Some (vs, r) \<Longrightarrow> length r < length s" for s vs r
    using Suc by blast
  have c: "parse_object n s = Some (ps, r) \<Longrightarrow> length r < length s" for s ps r
    using Suc by blast
  have A: "length r < length s" if h: "scan_once (Suc n) s = Some (v, r)" for s v r
  proof (cases s)
    case Nil
    then show ?thesis using h by simp
  next
    case (Cons x xs)
    consider (str) "x = dq" | (obj) "x \<noteq> dq" "x = CHR ''{''"
      | (arr) "x \<noteq> dq" "x \<noteq> CHR ''{''" "x = CHR ''[''"
      | (atom) "x \<noteq> dq" "x \<noteq> CHR ''{''" "x \<noteq> CHR ''[''"
      by blast
    then show ?thesis
    proof cases
      case str
      then show ?thesis using h Cons scanstring_consumes[of xs]
        by (auto split: option.splits)
    next
      case obj
      show ?thesis
      proof (cases "skip_ws xs")
        case Nil
        then show ?thesis using h Cons obj by simp
      next
        case (Cons y ys)
        have l: "length ys < length xs" using Cons by (rule skip_ws_Cons_length)
        show ?thesis
        proof (cases "y = CHR ''}''")
          case True
          then show ?thesis using h \<open>s = x # xs\<close> obj Cons l by auto
        next
          case False
          then obtain ps where "parse_object n (y # ys) = Some (ps, r)"
            using h \<open>s = x # xs\<close> obj Cons by (auto split: option.splits)
          then have "length r < length (y # ys)" by (rule c)
          then show ?thesis using l \<open>s = x # xs\<close> by simp
        qed
      qed
    next
      case arr
      show ?thesis
      proof (cases "skip_ws xs")
        case Nil
        then show ?thesis using h Cons arr by simp
      next
        case (Cons y ys)
        have l: "length ys < length xs" using Cons by (rule skip_ws_Cons_length)
        show ?thesis
        proof (cases "y = CHR '']''")
          case True
          then show ?thesis using h \<open>s = x # xs\<close> arr Cons l by auto
        next
          case False
          then obtain vs where "parse_array n (y # ys) = Some (vs, r)"
            using h \<open>s = x # xs\<close> arr Cons by (auto split: option.splits)
          then have "length r < length (y # ys)" by (rule b)
          then show ?thesis using l \<open>s = x # xs\<close> by simp
        qed
      qed
    next
      case atom
      then show ?thesis using h Cons scan_number_consumes[of s v r]
        by (auto split: if_splits)
    qed
  qed
  have B: "length r < length s" if h: "parse_array (Suc n) s = Some (vs, r)" for s vs r
  proof -
    obtain v r1 where 1: "scan_once n s = Some (v, r1)"
      using h by (auto split: option.splits)
    have l1: "length r1 < length s" using 1 by (rule a)
    obtain y ys where 2: "skip_ws r1 = y # ys"
      using h 1 by (cases "skip_ws r1") auto
    have l2: "length ys < length r1" using 2 by (rule skip_ws_Cons_length)
    show ?thesis
    proof (cases "y = CHR '']''")
      case True
      then show ?thesis using h 1 2 l1 l2 by auto
    next
      case False
      then obtain vs' where "parse_array n (skip_ws ys) = Some (vs', r)"
        using h 1 2 by (auto split: if_splits option.splits)
      then have "length r < length (skip_ws ys)" by (rule b)
      then show ?thesis using l1 l2 length_skip_ws[of ys] by simp
    qed
  qed
  have C: "length r < length s" if h: "parse_object (Suc n) s = Some (ps, r)" for s ps r
  proof -
    obtain xs where s: "s = dq # xs"
      using h by (cases s) (auto split: if_splits)
    obtain key r0 where 0: "scanstring xs = Some (key, r0)"
      using h s by (auto split: option.splits)
    have l0: "length r0 < length xs" using 0 by (rule scanstring_consumes)
    obtain cs1 where k: "skip_ws r0 = CHR '':'' # cs1"
      using h s 0 by (cases "skip_ws r0") (auto split: if_splits)
    have lk: "length cs1 < length r0" using k by (rule skip_ws_Cons_length)
    obtain v r1 where 1: "scan_once n (skip_ws cs1) = Some (v, r1)"
      using h s 0 k by (auto split: option.splits)
    have l1: "length r1 < length (skip_ws cs1)" using 1 by (rule a)
    obtain y ys where 2: "skip_ws r1 = y # ys"
      using h s 0 k 1 by (cases "skip_ws r1") auto
    have l2: "length ys < length r1" using 2 by (rule skip_ws_Cons_length)
    have l: "length ys < length s"
      using s l0 lk l1 l2 length_skip_ws[of cs1] by simp
    show ?thesis
    proof (cases "y = CHR ''}''")
      case True
      then show ?thesis using h s 0 k 1 2 l by auto
    next
      case False
      then obtain ms where "parse_object n (skip_ws ys) = Some (ms, r)"
        using h s 0 k 1 2 by (auto split: if_splits option.splits)
      then have "length r < length (skip_ws ys)" by (rule c)
      then show ?thesis using l length_skip_ws[of ys] by simp
    qed
  qed
  from A B C show ?case by blast
qed


lemma scan_once_consumes: "scan_once n s = Some (v, r) \<Longrightarrow> length r < length s"
  using scan_consumes[of n] by blast

lemma fuel_enough:
  "(\<forall>m s. 2 * length s < n \<longrightarrow> 2 * length s < m \<longrightarrow> scan_once n s = scan_once m s)
   \<and> (\<forall>m s. 2 * length s + 1 < n \<longrightarrow> 2 * length s + 1 < m \<longrightarrow>
        parse_array n s = parse_array m s)
   \<and> (\<forall>m s. 2 * length s + 1 < n \<longrightarrow> 2 * length s + 1 < m \<longrightarrow>
        parse_object n s = parse_object m s)"
proof (induction n)
  case 0
  then show ?case by simp
next
  case (Suc n)
  have a: "2 * length s < n \<Longrightarrow> 2 * length s < m \<Longrightarrow> scan_once n s = scan_once m s"
    for m s using Suc by blast
  have b: "2 * length s + 1 < n \<Longrightarrow> 2 * length s + 1 < m \<Longrightarrow>
      parse_array n s = parse_array m s" for m s using Suc by blast
  have c: "2 * length s + 1 < n \<Longrightarrow> 2 * length s + 1 < m \<Longrightarrow>
      parse_object n s = parse_object m s" for m s using Suc by blast
  have A: "scan_once (Suc n) s = scan_once m s"
    if h: "2 * length s < Suc n" "2 * length s < m" for m s
  proof -
    obtain m' where m: "m = Suc m'" using h by (cases m) auto
    show ?thesis
    proof (cases s)
      case Nil
      then show ?thesis by (simp add: m)
    next
      case (Cons x xs)
      have inner: "parse_array n (y # ys) = parse_array m' (y # ys)"
        "parse_object n (y # ys) = parse_object m' (y # ys)"
        if "skip_ws xs = y # ys" for y ys
      proof -
        have "length (y # ys) \<le> length xs" using that length_skip_ws[of xs] by simp
        then have "2 * length (y # ys) + 1 < n" "2 * length (y # ys) + 1 < m'"
          using h Cons m by simp_all
        then show "parse_array n (y # ys) = parse_array m' (y # ys)"
          "parse_object n (y # ys) = parse_object m' (y # ys)"
          using b c by blast+
      qed
      show ?thesis
        using inner by (simp add: m Cons split: list.splits)
    qed
  qed
  have B: "parse_array (Suc n) s = parse_array m s"
    if h: "2 * length s + 1 < Suc n" "2 * length s + 1 < m" for m s
  proof -
    obtain m' where m: "m = Suc m'" using h by (cases m) auto
    have 1: "scan_once n s = scan_once m' s" using h m by (intro a) simp_all
    have 2: "parse_array n (skip_ws ys) = parse_array m' (skip_ws ys)"
      if "scan_once n s = Some (v, r1)" "skip_ws r1 = y # ys" for v r1 y ys
    proof -
      have "length r1 < length s" using that(1) by (rule scan_once_consumes)
      moreover have "length ys < length r1" using that(2) length_skip_ws[of r1] by simp
      ultimately have "2 * length (skip_ws ys) + 1 < n" "2 * length (skip_ws ys) + 1 < m'"
        using h m length_skip_ws[of ys] by simp_all
      then show ?thesis by (rule b)
    qed
    show ?thesis
      using 2 by (simp add: m 1[symmetric] split: option.splits list.splits)
  qed
  have C: "parse_object (Suc n) s = parse_object m s"
    if h: "2 * length s + 1 < Suc n" "2 * length s + 1 < m" for m s
  proof -
    obtain m' where m: "m = Suc m'" using h by (cases m) auto
    have 1: "scan_once n (skip_ws cs1) = scan_once m' (skip_ws cs1)"
      if "s = x # xs" "scanstring xs = Some (key, r0)" "skip_ws r0 = c1 # cs1"
      for x xs key r0 c1 cs1
    proof -
      have "length r0 < length xs" using that(2) by (rule scanstring_consumes)
      moreover have "length cs1 < length r0" using that(3) length_skip_ws[of r0] by simp
      ultimately have "2 * length (skip_ws cs1) < n" "2 * length (skip_ws cs1) < m'"
        using h m that(1) length_skip_ws[of cs1] by simp_all
      then show ?thesis by (rule a)
    qed
    have 2: "parse_object n (skip_ws ys) = parse_object m' (skip_ws ys)"
      if "s = x # xs" "scanstring xs = Some (key, r0)" "skip_ws r0 = c1 # cs1"
        "scan_once n (skip_ws cs1) = Some (v, r1)" "skip_ws r1 = y # ys"
      for x xs key r0 c1 cs1 v r1 y ys
    proof -
      have "length r0 < length xs" using that(2) by (rule scanstring_consumes)
      moreover have "length cs1 < length r0" using that(3) length_skip_ws[of r0] by simp
      moreover have "length r1 < length (skip_ws cs1)" using that(4) by (rule scan_once_consumes)
      moreover have "length ys < length r1" using that(5) length_skip_ws[of r1] by simp
      ultimately have "2 * length (skip_ws ys) + 1 < n" "2 * length (skip_ws ys) + 1 < m'"
        using h m that(1) length_skip_ws[of cs1] length_skip_ws[of ys] by simp_all
      then show ?thesis by (rule c)
    qed
    show ?thesis
    proof (cases s)
      case Nil
      then show ?thesis by (simp add: m)
    next
      case (Cons x xs)
      show ?thesis
      proof (cases "scanstring xs")
        case None
        then show ?thesis by (simp add: m Cons)
      next
        case (Some p)
        obtain key r0 where p: "p = (key, r0)" by (cases p)
        show ?thesis
        proof (cases "skip_ws r0")
          case Nil
          then show ?thesis by (simp add: m Cons Some p)
        next
          case (Cons c1 cs1)
          note s1 = 1[OF \<open>s = x # xs\<close> Some[unfolded p] Cons]
          show ?thesis
          proof (cases "scan_once n (skip_ws cs1)")
            case None
            then show ?thesis using s1 by (simp add: m \<open>s = x # xs\<close> Some p Cons)
          next
            case (Some q)
            obtain v r1 where q: "q = (v, r1)" by (cases q)
            have s2: "parse_object n (skip_ws ys) = parse_object m' (skip_ws ys)"
              if "skip_ws r1 = y # ys" for y ys
              using 2[OF \<open>s = x # xs\<close> \<open>scanstring xs = Some p\<close>[unfolded p] Cons
                      Some[unfolded q] that] .
            have sn: "scan_once n (skip_ws cs1) = Some (v, r1)" using Some q by simp
            have sm: "scan_once m' (skip_ws cs1) = Some (v, r1)" using s1 sn by simp
            show ?thesis
            proof (cases "skip_ws r1")
              case Nil
              then show ?thesis
                by (simp add: m \<open>s = x # xs\<close> \<open>scanstring xs = Some p\<close> p Cons sn sm)
            next
              case (Cons y ys)
              then show ?thesis
                using s2[OF Cons]
                by (simp add: m \<open>s = x # xs\<close> \<open>scanstring xs = Some p\<close> p
                    \<open>skip_ws r0 = c1 # cs1\<close> sn sm)
            qed
          qed
        qed
      qed
    qed
  qed
  from A B C show ?case by blast
qed

lemma plain_loads_fuel:
  assumes "2 * length s < n"
  shows "plain_loads s =
     (case scan_once n (skip_ws s) of
        None \<Rightarrow> None
      | Some (v, rest) \<Rightarrow> if skip_ws rest = [] then Some v else None)"
proof -
  have "2 * length (skip_ws s) < n" "2 * length (skip_ws s) < Suc (2 * length s)"
    using assms length_skip_ws[of s] by simp_all
  then have "scan_once n (skip_ws s) = scan_once (Suc (2 * length s)) (skip_ws s)"
    using fuel_enough[of n] by blast
  then show ?thesis by (simp add: plain_loads_def)
qed

section \<open>The round trip of the codec\<close>



















lemma hex_val_hex_digit: "d < 16 \<Longrightarrow> hex_val (hex_digit d) = Some d"
  by (simp add: hex_val_def hex_digit_def Let_def)

lemma hex_val_zero: "hex_val (CHR ''0'') = Some 0"
  by (simp add: hex_val_def)

lemma hex4_of_char:
  "hex4 (CHR ''0'') (CHR ''0'') (hex_digit ((of_char c :: nat) div 16))
        (hex_digit ((of_char c :: nat) mod 16)) = Some (of_char c)"
proof -
  have "n < 256 \<Longrightarrow> n div 16 < 16" for n :: nat by arith
  then have "(of_char c :: nat) div 16 < 16" using nat_of_char_less_256 [of c] by blast
  then show ?thesis
    by (simp add: hex4_def hex_val_zero hex_val_hex_digit)
qed

lemma scanstring_escape_char:
  "scanstring (escape_char c @ t) = cons_result c (scanstring t)"
proof -
  consider (q) "c = dq" | (b) "c = backslash"
    | (n) "c = CHR 0x0A" | (r) "c = CHR 0x0D" | (t) "c = CHR 0x09" | (bs) "c = CHR 0x08" | (f) "c = CHR 0x0C"
    | (p) "c \<noteq> dq" "c \<noteq> backslash" "32 \<le> (of_char c :: nat)" "(of_char c :: nat) \<le> 126"
    | (u) "c \<noteq> dq" "c \<noteq> backslash" "c \<noteq> CHR 0x0A" "c \<noteq> CHR 0x0D" "c \<noteq> CHR 0x09" "c \<noteq> CHR 0x08" "c \<noteq> CHR 0x0C"
          "\<not> (32 \<le> (of_char c :: nat) \<and> (of_char c :: nat) \<le> 126)"
    by blast
  then show ?thesis
  proof cases
    case q
    then show ?thesis by (simp add: escape_char_def unescape_def dq_def backslash_def)
  next
    case b
    then show ?thesis by (simp add: escape_char_def unescape_def dq_def backslash_def)
  next
    case n
    then show ?thesis by (simp add: escape_char_def unescape_def dq_def backslash_def)
  next
    case r
    then show ?thesis by (simp add: escape_char_def unescape_def dq_def backslash_def)
  next
    case t
    then show ?thesis by (simp add: escape_char_def unescape_def dq_def backslash_def)
  next
    case bs
    then show ?thesis by (simp add: escape_char_def unescape_def dq_def backslash_def)
  next
    case f
    then show ?thesis by (simp add: escape_char_def unescape_def dq_def backslash_def)
  next
    case p
    have e: "escape_char c = [c]"
      using p by (auto simp add: escape_char_def)
    show ?thesis using p by (simp add: e)
  next
    case u
    have e: "escape_char c = [backslash, CHR ''u'', CHR ''0'', CHR ''0'',
            hex_digit ((of_char c :: nat) div 16), hex_digit ((of_char c :: nat) mod 16)]"
      using u by (simp add: escape_char_def)
    have "backslash \<noteq> dq" by (simp add: dq_def backslash_def)
    then show ?thesis
      by (simp add: e hex4_of_char)
  qed
qed

lemma scanstring_concat:
  "scanstring (concat (map escape_char s) @ dq # rest) = Some (s, rest)"
  by (induction s) (simp_all add: scanstring_escape_char cons_result_def)

lemma scanstring_encode:
  "\<exists>body. encode_basestring s @ rest = dq # body \<and> scanstring body = Some (s, rest)"
  by (simp add: encode_basestring_def scanstring_concat)






















section \<open>What the store operations write\<close>




























section \<open>Sequences of capture calls\<close>




lemma suffix_inj: "(a @ ''_json'' = b @ ''_json'') = (a = b)"
  by simp











lemma wf_members_iff: "wf_members kvs = (\<forall>p \<in> set kvs. wf_json (snd p))"
  by (induction kvs) auto
















end
